theory Spec2Isabelle
  imports Main "HOL-Library.AList" "HOL-Library.Word"
begin

section \<open>Python values used by \<open>backend/main.py\<close>\<close>

text \<open>
  A Python \<open>str\<close> is a sequence of Unicode code points, so it is modelled as a list of
  code points (natural numbers), not as a list of bytes: \<open>isascii\<close>, \<open>lower\<close>,
  \<open>startswith\<close> and \<open>strip\<close> all work on code points. \<open>str\<close> turns an ASCII literal
  of the source into that representation. \<open>bytes\<close> are lists of 8-bit words.
\<close>

type_synonym codepoint = nat
type_synonym pystr = "codepoint list"
type_synonym byte = "8 word"
type_synonym bytes = "byte list"

definition str :: "string \<Rightarrow> pystr" where
  "str s = map of_char s"

definition ascii :: "string \<Rightarrow> bytes" where
  "ascii s = map of_char s"


text \<open>
  \<open>s.lower()\<close>. On the ASCII range the mapping is \<open>A..Z\<close> to \<open>a..z\<close> and the identity
  elsewhere. The lowercase of a non-ASCII code point comes from the Unicode case-mapping
  table of the interpreter, which may yield several code points and, for the capital
  sigma, depends on the position in the string; that table is the parameter \<open>ul\<close>, given
  the whole string and the position. No property below assumes anything about it.
\<close>

definition ascii_lower :: "codepoint \<Rightarrow> codepoint" where
  "ascii_lower c = (if 65 \<le> c \<and> c \<le> 90 then c + 32 else c)"

fun lower_from :: "(pystr \<Rightarrow> nat \<Rightarrow> pystr) \<Rightarrow> pystr \<Rightarrow> nat \<Rightarrow> pystr \<Rightarrow> pystr" where
  "lower_from ul s i [] = []"
| "lower_from ul s i (c # cs) =
     (if c < 128 then [ascii_lower c] else ul s i) @ lower_from ul s (Suc i) cs"

definition lower :: "(pystr \<Rightarrow> nat \<Rightarrow> pystr) \<Rightarrow> pystr \<Rightarrow> pystr" where
  "lower ul s = lower_from ul s 0 s"

definition startswith :: "pystr \<Rightarrow> pystr \<Rightarrow> bool" where
  "startswith s p = (take (length p) s = p)"




text \<open>
  Exceptions are values. \<open>KeyError\<close> is what a failed dictionary subscript raises,
  \<open>StructError\<close> what \<open>struct.pack\<close> raises on a number that does not fit its field,
  \<open>UnicodeEncodeError\<close> what encoding a string as UTF-8 raises, and
  \<open>Raised x\<close> stands for an exception object raised inside one of the external
  collaborators (upload transport, Whisper, LanguageTool, Piper), \<open>x\<close> identifying it.
  All of them are instances of Python's \<open>Exception\<close>, the class the handler of
  \<open>upload_audio\<close> catches; signals outside that class (keyboard interrupt, task
  cancellation) are not part of the model.
\<close>

datatype exn = KeyError pystr | StructError | UnicodeEncodeError | Raised pystr

section \<open>Configuration\<close>

definition PIPER_MODELS :: "(pystr \<times> pystr) list" where
  "PIPER_MODELS =
     [(str ''en'', str ''models/en_US-kristin-medium.onnx''),
      (str ''de'', str ''models/de_DE-thorsten-medium.onnx''),
      (str ''tr'', str ''models/tr_TR-fettah-medium.onnx'')]"

definition DEFAULT_LANG :: pystr where
  "DEFAULT_LANG = str ''en''"

section \<open>External collaborators and program state\<close>

text \<open>
  The writer object of the standard \<open>wave\<close> module: the three format fields the source
  sets, and the sample bytes written so far.
\<close>

record wave_write =
  nchannels :: nat
  sampwidth :: nat
  framerate :: nat
  frames :: bytes

text \<open>
  A \<open>PiperVoice\<close> object: \<open>ident\<close> is its identity as an object (two handles are the same
  object iff their identities agree), \<open>model\<close> is what \<open>PiperVoice.load\<close> produced.
\<close>

record 'v PiperVoice =
  ident :: nat
  model :: 'v

text \<open>
  Everything the source calls but does not define is a field of the environment:
  \<^item> \<open>ulower\<close>: the Unicode lowercase table (see \<open>lower\<close>);
  \<^item> \<open>transcribe\<close>: writing the temporary file and \<open>whisper_model.transcribe\<close>; the
    result dictionary is kept as its string-valued entries;
  \<^item> \<open>lt_tool_en_check\<close>, \<open>lt_tool_de_check\<close>: \<open>check\<close> of the two LanguageTool
    instances, returning matches of an abstract type;
  \<^item> \<open>utils_correct\<close>: \<open>language_tool_python.utils.correct\<close>;
  \<^item> \<open>piper_load\<close>: \<open>PiperVoice.load\<close>;
  \<^item> \<open>synthesize_wav\<close>: \<open>voice.synthesize_wav(text, wav_file)\<close>, which receives the
    writer and leaves it changed;
  \<^item> \<open>exn_str\<close>: \<open>str(e)\<close> on an exception.
  Each call either raises (\<open>Inl\<close>) or returns (\<open>Inr\<close>). Calls to \<open>print\<close> write a log
  line only and are left out.
\<close>

record ('m, 'v) env =
  ulower :: "pystr \<Rightarrow> nat \<Rightarrow> pystr"
  transcribe :: "bytes \<Rightarrow> exn + (pystr \<times> pystr) list"
  lt_tool_en_check :: "pystr \<Rightarrow> exn + 'm"
  lt_tool_de_check :: "pystr \<Rightarrow> exn + 'm"
  utils_correct :: "pystr \<Rightarrow> 'm \<Rightarrow> exn + pystr"
  piper_load :: "pystr \<Rightarrow> exn + 'v"
  synthesize_wav :: "'v \<Rightarrow> pystr \<Rightarrow> wave_write \<Rightarrow> exn + wave_write"
  exn_str :: "exn \<Rightarrow> pystr"

text \<open>
  The call log records, in order, each entry into a pipeline component and each call of
  a collaborator, with its arguments: \<open>Transcribe\<close> for \<open>stt_with_whisper\<close>, \<open>Grammar\<close>
  for \<open>correct_grammar\<close>, \<open>Check\<close> for a LanguageTool \<open>check\<close> (with the tool's language),
  \<open>Load\<close> for \<open>PiperVoice.load\<close> (with the identity of the voice it returned, or \<open>None\<close>
  when it raised), \<open>Tts\<close> for \<open>tts_with_piper\<close> and \<open>Synthesize\<close> for
  \<open>voice.synthesize_wav\<close> (with the identity of the voice).
\<close>

datatype event =
    Transcribe bytes
  | Grammar pystr "pystr option"
  | Check pystr pystr
  | Load pystr "nat option"
  | Tts pystr pystr
  | Synthesize nat pystr

text \<open>
  The mutable state of the process: the module-level dictionary \<open>piper_voices\<close> (in
  insertion order), the number of \<open>PiperVoice\<close> objects constructed so far (the next
  object identity), and the call log.
\<close>

record 'v state =
  piper_voices :: "(pystr \<times> 'v PiperVoice) list"
  allocated :: nat
  calls :: "event list"

definition init_state :: "'v state" where
  "init_state = \<lparr>piper_voices = [], allocated = 0, calls = []\<rparr>"

definition log :: "event \<Rightarrow> 'v state \<Rightarrow> 'v state" where
  "log ev s = s\<lparr>calls := calls s @ [ev]\<rparr>"

section \<open>Helper functions of the source\<close>


definition detect_lang_for_tts :: "(pystr \<Rightarrow> nat \<Rightarrow> pystr) \<Rightarrow> pystr \<Rightarrow> pystr option" where
  "detect_lang_for_tts ul detected =
     (if detected = [] then Some DEFAULT_LANG
      else let d = lower ul detected in
        if startswith d (str ''en'') then Some (str ''en'')
        else if startswith d (str ''de'') then Some (str ''de'')
        else if startswith d (str ''tr'') then Some (str ''tr'')
        else None)"

text \<open>
  The two correcting branches of \<open>correct_grammar\<close> differ only in the tool they call:
  \<open>tool.check(text)\<close>, then \<open>language_tool_python.utils.correct(text, matches)\<close>.
\<close>

definition check_and_correct ::
  "('m, 'v) env \<Rightarrow> (pystr \<Rightarrow> exn + 'm) \<Rightarrow> pystr \<Rightarrow> pystr \<Rightarrow> 'v state \<Rightarrow>
     (exn + pystr) \<times> 'v state" where
  "check_and_correct e check tool_lang txt s =
     (let s1 = log (Check tool_lang txt) s in
      case check txt of
        Inl x \<Rightarrow> (Inl x, s1)
      | Inr matches \<Rightarrow>
          (case utils_correct e txt matches of
             Inl x \<Rightarrow> (Inl x, s1)
           | Inr corrected \<Rightarrow> (Inr corrected, s1)))"

definition correct_grammar ::
  "('m, 'v) env \<Rightarrow> pystr \<Rightarrow> pystr option \<Rightarrow> 'v state \<Rightarrow> (exn + pystr) \<times> 'v state" where
  "correct_grammar e txt lang_key s =
     (let s0 = log (Grammar txt lang_key) s in
      if lang_key = Some (str ''en'') then
        check_and_correct e (lt_tool_en_check e) (str ''en-US'') txt s0
      else if lang_key = Some (str ''de'') then
        check_and_correct e (lt_tool_de_check e) (str ''de-DE'') txt s0
      else (Inr txt, s0))"

definition get_piper_voice ::
  "('m, 'v) env \<Rightarrow> pystr \<Rightarrow> 'v state \<Rightarrow> (exn + 'v PiperVoice) \<times> 'v state" where
  "get_piper_voice e lang_key0 s =
     (let lang_key = (if map_of PIPER_MODELS lang_key0 = None then DEFAULT_LANG else lang_key0) in
      case map_of (piper_voices s) lang_key of
        Some voice \<Rightarrow> (Inr voice, s)
      | None \<Rightarrow>
          (case map_of PIPER_MODELS lang_key of
             None \<Rightarrow> (Inl (KeyError lang_key), s)
           | Some model_path \<Rightarrow>
               (case piper_load e model_path of
                  Inl x \<Rightarrow> (Inl x, log (Load model_path None) s)
                | Inr m \<Rightarrow>
                    (let voice = \<lparr>ident = allocated s, model = m\<rparr> in
                     (Inr voice,
                      log (Load model_path (Some (ident voice)))
                        (s\<lparr>piper_voices := AList.update lang_key voice (piper_voices s),
                           allocated := Suc (allocated s)\<rparr>))))))"

text \<open>
  Closing the \<open>wave\<close> writer leaves in the buffer the 44-byte RIFF header followed by the
  sample bytes. The header is packed by \<open>struct.pack\<close> with little-endian unsigned fields
  of two and four bytes, which raises when a number does not fit its field.
\<close>

definition pack_uint :: "nat \<Rightarrow> nat \<Rightarrow> exn + bytes" where
  "pack_uint k n =
     (if n < 256 ^ k then Inr (map (\<lambda>i. of_nat (n div 256 ^ i)) [0..<k]) else Inl StructError)"

fun pack_fields :: "(nat \<times> nat) list \<Rightarrow> exn + bytes" where
  "pack_fields [] = Inr []"
| "pack_fields ((k, n) # fs) =
     (case pack_uint k n of
        Inl x \<Rightarrow> Inl x
      | Inr b \<Rightarrow> (case pack_fields fs of Inl x \<Rightarrow> Inl x | Inr bs \<Rightarrow> Inr (b @ bs)))"

definition wave_close :: "wave_write \<Rightarrow> exn + bytes" where
  "wave_close w =
     (let n = length (frames w) in
      case pack_fields [(4, 36 + n)] of
        Inl x \<Rightarrow> Inl x
      | Inr riff_size \<Rightarrow>
          (case pack_fields
                  [(4, 16), (2, 1), (2, nchannels w), (4, framerate w),
                   (4, nchannels w * framerate w * sampwidth w),
                   (2, nchannels w * sampwidth w), (2, sampwidth w * 8)] of
             Inl x \<Rightarrow> Inl x
           | Inr fmt \<Rightarrow>
               (case pack_fields [(4, n)] of
                  Inl x \<Rightarrow> Inl x
                | Inr data_size \<Rightarrow>
                    Inr (ascii ''RIFF'' @ riff_size @ ascii ''WAVE'' @ ascii ''fmt '' @ fmt @
                         ascii ''data'' @ data_size @ frames w))))"

definition tts_with_piper ::
  "('m, 'v) env \<Rightarrow> pystr \<Rightarrow> pystr \<Rightarrow> 'v state \<Rightarrow> (exn + bytes) \<times> 'v state" where
  "tts_with_piper e txt lang_key s =
     (case get_piper_voice e lang_key (log (Tts txt lang_key) s) of
        (Inl x, s1) \<Rightarrow> (Inl x, s1)
      | (Inr voice, s1) \<Rightarrow>
          (let wav_file = \<lparr>nchannels = 1, sampwidth = 2, framerate = 22050, frames = []\<rparr>;
               s2 = log (Synthesize (ident voice) txt) s1 in
           case synthesize_wav e (model voice) txt wav_file of
             Inl x \<Rightarrow> (Inl x, s2)
           | Inr wav_file' \<Rightarrow>
               (case wave_close wav_file' of
                  Inl x \<Rightarrow> (Inl x, s2)
                | Inr wav_bytes \<Rightarrow> (Inr wav_bytes, s2))))"

section \<open>The endpoint\<close>










section \<open>Notions used to state the properties\<close>


definition stub_env ::
  "(exn + (pystr \<times> pystr) list) \<Rightarrow> (exn + pystr) \<Rightarrow> (exn + unit) \<Rightarrow> (exn + bytes) \<Rightarrow> (unit, unit) env" where
  "stub_env result corrected voice samples =
     \<lparr>ulower = (\<lambda>s i. [s ! i]),
      transcribe = (\<lambda>b. result),
      lt_tool_en_check = (\<lambda>t. Inr ()),
      lt_tool_de_check = (\<lambda>t. Inr ()),
      utils_correct = (\<lambda>t m. corrected),
      piper_load = (\<lambda>p. voice),
      synthesize_wav = (\<lambda>v t w. case samples of Inl x \<Rightarrow> Inl x
                                  | Inr d \<Rightarrow> Inr (w\<lparr>frames := frames w @ d\<rparr>)),
      exn_str = (\<lambda>x. case x of
                         Raised m \<Rightarrow> m
                       | KeyError k \<Rightarrow> k
                       | StructError \<Rightarrow> str ''argument out of range''
                       | UnicodeEncodeError \<Rightarrow> str ''surrogates not allowed'')\<rparr>"

definition voice_key :: "pystr \<Rightarrow> pystr" where
  "voice_key lang_key = (if map_of PIPER_MODELS lang_key = None then DEFAULT_LANG else lang_key)"



text \<open>
  For the voice cache: \<open>run_gets\<close> performs a sequence of \<open>get_piper_voice\<close> calls, each
  with its own environment, and keeps the state; \<open>loads_of p\<close> counts in a call log the
  calls of \<open>PiperVoice.load\<close> on the path \<open>p\<close> that returned a voice. \<open>cache_inv\<close> is the
  invariant of the cache: its keys are distinct, the voices it holds are exactly the
  voices constructed so far (in order of construction), a configured path has been
  loaded once if its key is cached and never otherwise, and no other path was loaded.
\<close>

fun run_gets :: "(('m, 'v) env \<times> pystr) list \<Rightarrow> 'v state \<Rightarrow> 'v state" where
  "run_gets [] s = s"
| "run_gets ((e, k) # cs) s = run_gets cs (snd (get_piper_voice e k s))"

definition is_load_of :: "pystr \<Rightarrow> event \<Rightarrow> bool" where
  "is_load_of p ev = (case ev of Load q (Some i) \<Rightarrow> q = p | _ \<Rightarrow> False)"

definition loads_of :: "pystr \<Rightarrow> event list \<Rightarrow> nat" where
  "loads_of p evs = length (filter (is_load_of p) evs)"

definition cache_inv :: "'v state \<Rightarrow> bool" where
  "cache_inv s =
     (distinct (map fst (piper_voices s))
      \<and> map (\<lambda>kv. ident (snd kv)) (piper_voices s) = [0..<allocated s]
      \<and> (\<forall>k p. map_of PIPER_MODELS k = Some p \<longrightarrow>
             loads_of p (calls s) = (if map_of (piper_voices s) k = None then 0 else 1))
      \<and> (\<forall>p. p \<notin> snd ` set PIPER_MODELS \<longrightarrow> loads_of p (calls s) = 0))"

section \<open>The language gate (\<open>detect_lang_for_tts\<close>)\<close>

lemma str_en: "str ''en'' = [101, 110]" by (simp add: str_def)
lemma str_de: "str ''de'' = [100, 101]" by (simp add: str_def)
lemma str_tr: "str ''tr'' = [116, 114]" by (simp add: str_def)

lemma lower_ascii2:
  "a < 128 \<Longrightarrow> b < 128 \<Longrightarrow>
   lower ul (a # b # rest) = ascii_lower a # ascii_lower b # lower_from ul (a # b # rest) 2 rest"
  by (simp add: lower_def numeral_2_eq_2)

lemma lower_ascii1: "a < 128 \<Longrightarrow> lower ul [a] = [ascii_lower a]"
  by (simp add: lower_def)

lemma detect_range:
  "detect_lang_for_tts ul c \<in> {None, Some (str ''en''), Some (str ''de''), Some (str ''tr'')}"
  by (simp add: detect_lang_for_tts_def DEFAULT_LANG_def Let_def)

text \<open>
  Claim C2. \<open>detect_lang_for_tts\<close> is a function of the raw code alone (it takes and
  returns no state), it has no failing branch, and for every code it returns one of
  absence, \<open>en\<close>, \<open>de\<close>, \<open>tr\<close>. The empty code gives the default key, which is
  \<open>en\<close>; \<open>EN-us\<close> gives \<open>en\<close>, \<open>pt-BR\<close> gives absence, \<open>deu\<close> gives \<open>de\<close>. On a
  code whose first two code points are ASCII the result depends only on those two, up to
  ASCII letter case, whatever follows; a single ASCII code point matches nothing; and any
  non-empty code whose lowercase form starts with none of the three keys gives absence.
\<close>

theorem C2_language_gate:
  "detect_lang_for_tts ul [] = Some DEFAULT_LANG
   \<and> DEFAULT_LANG = str ''en''
   \<and> detect_lang_for_tts ul (str ''EN-us'') = Some (str ''en'')
   \<and> detect_lang_for_tts ul (str ''pt-BR'') = None
   \<and> detect_lang_for_tts ul (str ''deu'') = Some (str ''de'')
   \<and> detect_lang_for_tts ul c \<in> {None, Some (str ''en''), Some (str ''de''), Some (str ''tr'')}
   \<and> (a < 128 \<and> b < 128 \<longrightarrow>
        detect_lang_for_tts ul (a # b # rest) =
          (if [ascii_lower a, ascii_lower b] = str ''en'' then Some (str ''en'')
           else if [ascii_lower a, ascii_lower b] = str ''de'' then Some (str ''de'')
           else if [ascii_lower a, ascii_lower b] = str ''tr'' then Some (str ''tr'')
           else None))
   \<and> (a < 128 \<longrightarrow> detect_lang_for_tts ul [a] = None)
   \<and> (c \<noteq> [] \<and> \<not> startswith (lower ul c) (str ''en'') \<and> \<not> startswith (lower ul c) (str ''de'')
        \<and> \<not> startswith (lower ul c) (str ''tr'') \<longrightarrow> detect_lang_for_tts ul c = None)"
proof -
  have e: "detect_lang_for_tts ul [] = Some DEFAULT_LANG"
    by (simp add: detect_lang_for_tts_def)
  have d: "DEFAULT_LANG = str ''en''"
    by (simp add: DEFAULT_LANG_def)
  have x1: "detect_lang_for_tts ul (str ''EN-us'') = Some (str ''en'')"
    by (simp add: detect_lang_for_tts_def str_def lower_def ascii_lower_def startswith_def)
  have x2: "detect_lang_for_tts ul (str ''pt-BR'') = None"
    by (simp add: detect_lang_for_tts_def str_def lower_def ascii_lower_def startswith_def)
  have x3: "detect_lang_for_tts ul (str ''deu'') = Some (str ''de'')"
    by (simp add: detect_lang_for_tts_def str_def lower_def ascii_lower_def startswith_def)
  have two: "a < 128 \<and> b < 128 \<longrightarrow>
        detect_lang_for_tts ul (a # b # rest) =
          (if [ascii_lower a, ascii_lower b] = str ''en'' then Some (str ''en'')
           else if [ascii_lower a, ascii_lower b] = str ''de'' then Some (str ''de'')
           else if [ascii_lower a, ascii_lower b] = str ''tr'' then Some (str ''tr'')
           else None)"
    by (simp add: detect_lang_for_tts_def lower_ascii2 startswith_def str_en str_de str_tr Let_def)
  have one: "a < 128 \<longrightarrow> detect_lang_for_tts ul [a] = None"
    by (simp add: detect_lang_for_tts_def lower_ascii1 startswith_def str_en str_de str_tr Let_def)
  have no: "c \<noteq> [] \<and> \<not> startswith (lower ul c) (str ''en'') \<and> \<not> startswith (lower ul c) (str ''de'')
        \<and> \<not> startswith (lower ul c) (str ''tr'') \<longrightarrow> detect_lang_for_tts ul c = None"
    by (simp add: detect_lang_for_tts_def Let_def)
  show ?thesis
    by (intro conjI e d x1 x2 x3 detect_range two one no)
qed

text \<open>
  The properties of C2 at concrete codes: \<open>EN-us\<close> (first code points 69 and 78), the
  single letter \<open>E\<close>, and the unsupported code \<open>hy\<close>.
\<close>

theorem C2_language_gate_witness:
  "(69::nat) < 128 \<and> (78::nat) < 128
   \<and> detect_lang_for_tts (\<lambda>s i. []) (69 # 78 # str ''-us'') = Some (str ''en'')
   \<and> detect_lang_for_tts (\<lambda>s i. []) [69] = None
   \<and> str ''hy'' \<noteq> []
   \<and> \<not> startswith (lower (\<lambda>s i. []) (str ''hy'')) (str ''en'')
   \<and> \<not> startswith (lower (\<lambda>s i. []) (str ''hy'')) (str ''de'')
   \<and> \<not> startswith (lower (\<lambda>s i. []) (str ''hy'')) (str ''tr'')
   \<and> detect_lang_for_tts (\<lambda>s i. []) (str ''hy'') = None"
  using C2_language_gate [of "\<lambda>s i. []" "str ''hy''" 69 78 "str ''-us''"]
  by (simp add: str_def lower_def ascii_lower_def startswith_def DEFAULT_LANG_def)

lemma log_simps:
  "calls (log ev s) = calls s @ [ev]"
  "piper_voices (log ev s) = piper_voices s"
  "allocated (log ev s) = allocated s"
  by (simp_all add: log_def)

section \<open>The grammar corrector\<close>

text \<open>
  Claim C6. \<open>correct_grammar\<close> returns the text unchanged for the absent key, for \<open>tr\<close>,
  and for every key other than \<open>en\<close> and \<open>de\<close>; on those calls the only effect is the log
  entry of the call itself, so no grammar engine is consulted.
\<close>

theorem C6_grammar_identity:
  "correct_grammar e t None s = (Inr t, log (Grammar t None) s)
   \<and> correct_grammar e t (Some (str ''tr'')) s = (Inr t, log (Grammar t (Some (str ''tr''))) s)
   \<and> (k \<noteq> Some (str ''en'') \<and> k \<noteq> Some (str ''de'') \<longrightarrow>
        correct_grammar e t k s = (Inr t, log (Grammar t k) s))"
  by (simp add: correct_grammar_def Let_def str_en str_de str_tr)

text \<open>
  C6 at the key \<open>pt\<close>, beside a run with key \<open>en\<close> where the stub engine does rewrite
  the text.
\<close>

theorem C6_grammar_identity_witness:
  "Some (str ''pt'') \<noteq> Some (str ''en'') \<and> Some (str ''pt'') \<noteq> Some (str ''de'')
   \<and> correct_grammar (stub_env (Inr []) (Inr (str ''I have an apple'')) (Inr ()) (Inr []))
        (str ''i has a apple'') (Some (str ''pt'')) init_state =
      (Inr (str ''i has a apple''), log (Grammar (str ''i has a apple'') (Some (str ''pt''))) init_state)
   \<and> fst (correct_grammar (stub_env (Inr []) (Inr (str ''I have an apple'')) (Inr ()) (Inr []))
        (str ''i has a apple'') (Some (str ''en'')) init_state) = Inr (str ''I have an apple'')"
  using C6_grammar_identity [of "stub_env (Inr []) (Inr (str ''I have an apple'')) (Inr ()) (Inr [])"
      "str ''i has a apple''" init_state "Some (str ''pt'')"]
  by (simp add: str_def correct_grammar_def check_and_correct_def stub_env_def Let_def)

section \<open>Responses of the endpoint\<close>














lemma stub_env_sel:
  "piper_load (stub_env r c v d) = (\<lambda>p. v)"
  "transcribe (stub_env r c v d) = (\<lambda>b. r)"
  "utils_correct (stub_env r c v d) = (\<lambda>t m. c)"
  "lt_tool_en_check (stub_env r c v d) = (\<lambda>t. Inr ())"
  "lt_tool_de_check (stub_env r c v d) = (\<lambda>t. Inr ())"
  "ulower (stub_env r c v d) = (\<lambda>s i. [s ! i])"
  "exn_str (stub_env r c v d) (Raised msg) = msg"
  "exn_str (stub_env r c v d) UnicodeEncodeError = str ''surrogates not allowed''"
  "exn_str (stub_env r c v d) StructError = str ''argument out of range''"
  by (simp_all add: stub_env_def)




section \<open>The voice cache\<close>

lemma map_of_PIPER_MODELS:
  "map_of PIPER_MODELS k =
     (if k = str ''en'' then Some (str ''models/en_US-kristin-medium.onnx'')
      else if k = str ''de'' then Some (str ''models/de_DE-thorsten-medium.onnx'')
      else if k = str ''tr'' then Some (str ''models/tr_TR-fettah-medium.onnx'')
      else None)"
  by (simp add: PIPER_MODELS_def)

lemma voice_key_configured: "\<exists>p. map_of PIPER_MODELS (voice_key k) = Some p"
  by (simp add: voice_key_def map_of_PIPER_MODELS DEFAULT_LANG_def)

lemma get_piper_voice_hit:
  "map_of (piper_voices s) (voice_key k) = Some v \<Longrightarrow> get_piper_voice e k s = (Inr v, s)"
  by (simp add: get_piper_voice_def voice_key_def Let_def)

lemma get_piper_voice_load_fails:
  "map_of (piper_voices s) (voice_key k) = None \<Longrightarrow>
   map_of PIPER_MODELS (voice_key k) = Some p \<Longrightarrow> piper_load e p = Inl x \<Longrightarrow>
   get_piper_voice e k s = (Inl x, log (Load p None) s)"
  by (simp add: get_piper_voice_def voice_key_def Let_def)

lemma get_piper_voice_loads:
  "map_of (piper_voices s) (voice_key k) = None \<Longrightarrow>
   map_of PIPER_MODELS (voice_key k) = Some p \<Longrightarrow> piper_load e p = Inr m \<Longrightarrow>
   get_piper_voice e k s =
     (Inr \<lparr>ident = allocated s, model = m\<rparr>,
      log (Load p (Some (allocated s)))
        (s\<lparr>piper_voices :=
             AList.update (voice_key k) \<lparr>ident = allocated s, model = m\<rparr> (piper_voices s),
           allocated := Suc (allocated s)\<rparr>))"
  by (simp add: get_piper_voice_def voice_key_def Let_def)

lemma get_piper_voice_cases:
  obtains (hit) v where "map_of (piper_voices s) (voice_key k) = Some v"
      "get_piper_voice e k s = (Inr v, s)"
  | (fails) p x where "map_of (piper_voices s) (voice_key k) = None"
      "map_of PIPER_MODELS (voice_key k) = Some p" "piper_load e p = Inl x"
      "get_piper_voice e k s = (Inl x, log (Load p None) s)"
  | (loads) p m where "map_of (piper_voices s) (voice_key k) = None"
      "map_of PIPER_MODELS (voice_key k) = Some p" "piper_load e p = Inr m"
      "get_piper_voice e k s =
         (Inr \<lparr>ident = allocated s, model = m\<rparr>,
          log (Load p (Some (allocated s)))
            (s\<lparr>piper_voices :=
                 AList.update (voice_key k) \<lparr>ident = allocated s, model = m\<rparr> (piper_voices s),
               allocated := Suc (allocated s)\<rparr>))"
proof (cases "map_of (piper_voices s) (voice_key k)")
  case (Some v)
  show ?thesis
    by (rule hit [OF Some get_piper_voice_hit [OF Some]])
next
  case None
  obtain p where p: "map_of PIPER_MODELS (voice_key k) = Some p"
    using voice_key_configured by blast
  show ?thesis
  proof (cases "piper_load e p")
    case (Inl x)
    show ?thesis
      by (rule fails [OF None p Inl get_piper_voice_load_fails [OF None p Inl]])
  next
    case (Inr m)
    show ?thesis
      by (rule loads [OF None p Inr get_piper_voice_loads [OF None p Inr]])
  qed
qed

lemma update_absent:
  "map_of al k = None \<Longrightarrow> AList.update k v al = al @ [(k, v)]"
  by (induction al) (auto split: if_splits)

lemma loads_of_snoc:
  "loads_of p (evs @ [ev]) = loads_of p evs + (if is_load_of p ev then 1 else 0)"
  by (simp add: loads_of_def)

lemma models_injective:
  "map_of PIPER_MODELS k1 = Some p \<Longrightarrow> map_of PIPER_MODELS k2 = Some p \<Longrightarrow> k1 = k2"
  by (auto simp: map_of_PIPER_MODELS str_def split: if_splits)

lemma models_ran: "map_of PIPER_MODELS k = Some p \<Longrightarrow> p \<in> snd ` set PIPER_MODELS"
  by (metis map_of_SomeD image_eqI snd_conv)

lemma cache_inv_init: "cache_inv (init_state :: 'v state)"
  by (simp add: cache_inv_def init_state_def loads_of_def)

lemma cache_inv_log_fail: "cache_inv s \<Longrightarrow> cache_inv (log (Load p None) s)"
  by (simp add: cache_inv_def log_simps loads_of_snoc is_load_of_def)

lemma cache_inv_load:
  assumes inv: "cache_inv s"
    and absent: "map_of (piper_voices s) k = None"
    and conf: "map_of PIPER_MODELS k = Some p"
  shows "cache_inv (log (Load p (Some (allocated s)))
           (s\<lparr>piper_voices := AList.update k \<lparr>ident = allocated s, model = m\<rparr> (piper_voices s),
              allocated := Suc (allocated s)\<rparr>))"
proof -
  let ?v = "\<lparr>ident = allocated s, model = m\<rparr>"
  let ?s = "log (Load p (Some (allocated s)))
           (s\<lparr>piper_voices := AList.update k ?v (piper_voices s),
              allocated := Suc (allocated s)\<rparr>)"
  have pv: "piper_voices ?s = piper_voices s @ [(k, ?v)]"
    by (simp add: log_simps update_absent [OF absent])
  have al: "allocated ?s = Suc (allocated s)"
    by (simp add: log_simps)
  have cl: "calls ?s = calls s @ [Load p (Some (allocated s))]"
    by (simp add: log_simps)
  have notin: "k \<notin> fst ` set (piper_voices s)"
    using absent by (simp add: map_of_eq_None_iff)
  have d: "distinct (map fst (piper_voices ?s))"
    using inv notin by (simp add: pv cache_inv_def)
  have i: "map (\<lambda>kv. ident (snd kv)) (piper_voices ?s) = [0..<allocated ?s]"
    using inv by (simp add: pv al cache_inv_def)
  have c: "loads_of q (calls ?s) = (if map_of (piper_voices ?s) k' = None then 0 else 1)"
    if kq: "map_of PIPER_MODELS k' = Some q" for k' q
  proof (cases "k' = k")
    case True
    then have "q = p" using kq conf by simp
    moreover have "loads_of p (calls s) = 0"
      using inv conf absent by (simp add: cache_inv_def)
    ultimately show ?thesis
      using True by (simp add: cl pv loads_of_snoc is_load_of_def)
  next
    case False
    then have "q \<noteq> p" using models_injective [OF kq] conf by blast
    moreover have "loads_of q (calls s) = (if map_of (piper_voices s) k' = None then 0 else 1)"
      using inv kq by (simp add: cache_inv_def)
    ultimately show ?thesis
      using False by (simp add: cl pv loads_of_snoc is_load_of_def)
  qed
  have u: "loads_of q (calls ?s) = 0" if "q \<notin> snd ` set PIPER_MODELS" for q
  proof -
    have "q \<noteq> p" using that models_ran [OF conf] by blast
    moreover have "loads_of q (calls s) = 0" using inv that by (simp add: cache_inv_def)
    ultimately show ?thesis by (simp add: cl loads_of_snoc is_load_of_def)
  qed
  show ?thesis
    unfolding cache_inv_def using d i c u by blast
qed

lemma cache_inv_get: "cache_inv s \<Longrightarrow> cache_inv (snd (get_piper_voice e k s))"
proof (cases rule: get_piper_voice_cases [of s k e])
  case (hit v)
  assume "cache_inv s"
  then show ?thesis by (simp add: hit)
next
  case (fails p x)
  assume "cache_inv s"
  then show ?thesis by (simp add: fails cache_inv_log_fail)
next
  case (loads p m)
  assume "cache_inv s"
  then show ?thesis by (simp add: loads cache_inv_load)
qed

lemma cache_inv_run_gets: "cache_inv s \<Longrightarrow> cache_inv (run_gets cs s)"
  by (induction cs s rule: run_gets.induct) (simp_all add: cache_inv_get)

lemma get_caches:
  assumes "get_piper_voice e k s = (Inr v, s1)"
  shows "map_of (piper_voices s1) (voice_key k) = Some v"
proof (cases rule: get_piper_voice_cases [of s k e])
  case (hit w)
  then show ?thesis using assms by simp
next
  case (fails p x)
  then show ?thesis using assms by simp
next
  case (loads p m)
  then show ?thesis using assms by (auto simp: log_simps update_conv')
qed

lemma cache_persists:
  assumes "map_of (piper_voices s) k' = Some v"
  shows "map_of (piper_voices (snd (get_piper_voice e k s))) k' = Some v"
proof (cases rule: get_piper_voice_cases [of s k e])
  case (hit w)
  then show ?thesis using assms by simp
next
  case (fails p x)
  then show ?thesis using assms by (simp add: log_simps)
next
  case (loads p m)
  then have "k' \<noteq> voice_key k" using assms by auto
  then show ?thesis using assms loads by (simp add: log_simps update_conv')
qed

lemma cache_persists_run:
  "map_of (piper_voices s) k' = Some v \<Longrightarrow> map_of (piper_voices (run_gets cs s)) k' = Some v"
  by (induction cs s rule: run_gets.induct) (simp_all add: cache_persists)

text \<open>
  Claim C7. Once \<open>get_piper_voice\<close> has returned a voice for a key, a later call for
  that key, at once or after any sequence of further calls and in any environment,
  returns the same voice object and leaves the state, call log included, as it was: it
  loads nothing. In every state reached from the initial one by a sequence of calls, each
  model path has been loaded successfully at most once, the cache has one entry per key,
  the cached voices are distinct objects, and the cache holds every voice constructed.
\<close>

theorem C7_voice_cache_memoizes:
  "(get_piper_voice e1 k s = (Inr v, s1) \<longrightarrow>
      get_piper_voice e2 k s1 = (Inr v, s1)
      \<and> get_piper_voice e2 k (run_gets cs s1) = (Inr v, run_gets cs s1))
   \<and> loads_of p (calls (run_gets cs init_state)) \<le> 1
   \<and> distinct (map fst (piper_voices (run_gets cs init_state)))
   \<and> distinct (map (\<lambda>kv. ident (snd kv)) (piper_voices (run_gets cs init_state)))
   \<and> length (piper_voices (run_gets cs init_state)) = allocated (run_gets cs init_state)"
proof -
  have memo: "get_piper_voice e1 k s = (Inr v, s1) \<longrightarrow>
      get_piper_voice e2 k s1 = (Inr v, s1)
      \<and> get_piper_voice e2 k (run_gets cs s1) = (Inr v, run_gets cs s1)"
  proof
    assume g: "get_piper_voice e1 k s = (Inr v, s1)"
    have c: "map_of (piper_voices s1) (voice_key k) = Some v"
      by (rule get_caches [OF g])
    show "get_piper_voice e2 k s1 = (Inr v, s1)
      \<and> get_piper_voice e2 k (run_gets cs s1) = (Inr v, run_gets cs s1)"
      by (simp add: get_piper_voice_hit [OF c] get_piper_voice_hit [OF cache_persists_run [OF c]])
  qed
  let ?s = "run_gets cs init_state"
  have inv: "cache_inv ?s"
    by (rule cache_inv_run_gets [OF cache_inv_init])
  have ids: "map (\<lambda>kv. ident (snd kv)) (piper_voices ?s) = [0..<allocated ?s]"
    using inv by (simp add: cache_inv_def)
  have l: "loads_of p (calls ?s) \<le> 1"
  proof (cases "p \<in> snd ` set PIPER_MODELS")
    case True
    then obtain k0 where "(k0, p) \<in> set PIPER_MODELS" by auto
    moreover have "distinct (map fst PIPER_MODELS)"
      by (simp add: PIPER_MODELS_def str_def)
    ultimately have "map_of PIPER_MODELS k0 = Some p" by simp
    then have "loads_of p (calls ?s) = (if map_of (piper_voices ?s) k0 = None then 0 else 1)"
      using inv by (simp add: cache_inv_def)
    then show ?thesis by simp
  next
    case False
    then have "loads_of p (calls ?s) = 0" using inv by (simp add: cache_inv_def)
    then show ?thesis by simp
  qed
  have d: "distinct (map fst (piper_voices ?s))"
    using inv by (simp add: cache_inv_def)
  have di: "distinct (map (\<lambda>kv. ident (snd kv)) (piper_voices ?s))"
    by (simp only: ids distinct_upt)
  have len: "length (piper_voices ?s) = allocated ?s"
  proof -
    have "length (map (\<lambda>kv. ident (snd kv)) (piper_voices ?s)) = length [0..<allocated ?s]"
      by (simp only: ids)
    then show ?thesis by simp
  qed
  show ?thesis
    by (intro conjI memo l d di len)
qed

lemma voice_key_de: "voice_key (str ''de'') = str ''de''"
  by (simp add: voice_key_def map_of_PIPER_MODELS)

lemma voice_key_unconfigured: "map_of PIPER_MODELS k = None \<Longrightarrow> voice_key k = DEFAULT_LANG"
  by (simp add: voice_key_def)

lemma voice_key_default: "voice_key DEFAULT_LANG = DEFAULT_LANG"
  by (simp add: voice_key_def)

lemma model_de: "map_of PIPER_MODELS (str ''de'') = Some (str ''models/de_DE-thorsten-medium.onnx'')"
  by (simp add: map_of_PIPER_MODELS str_en str_de)

text \<open>
  C7 for the key \<open>de\<close>: the first call loads, the second call returns the same voice
  even though loading would now fail.
\<close>

theorem C7_voice_cache_memoizes_witness:
  "get_piper_voice (stub_env (Inr []) (Inr []) (Inr ()) (Inr [])) (str ''de'') init_state =
     (Inr \<lparr>ident = 0, model = ()\<rparr>,
      \<lparr>piper_voices = [(str ''de'', \<lparr>ident = 0, model = ()\<rparr>)], allocated = 1,
       calls = [Load (str ''models/de_DE-thorsten-medium.onnx'') (Some 0)]\<rparr>)
   \<and> get_piper_voice (stub_env (Inr []) (Inr []) (Inl (Raised (str ''gone''))) (Inr [])) (str ''de'')
       \<lparr>piper_voices = [(str ''de'', \<lparr>ident = 0, model = ()\<rparr>)], allocated = 1,
        calls = [Load (str ''models/de_DE-thorsten-medium.onnx'') (Some 0)]\<rparr> =
     (Inr \<lparr>ident = 0, model = ()\<rparr>,
      \<lparr>piper_voices = [(str ''de'', \<lparr>ident = 0, model = ()\<rparr>)], allocated = 1,
       calls = [Load (str ''models/de_DE-thorsten-medium.onnx'') (Some 0)]\<rparr>)
   \<and> loads_of (str ''models/de_DE-thorsten-medium.onnx'')
         (calls (run_gets
            [(stub_env (Inr []) (Inr []) (Inr ()) (Inr []), str ''de''),
             (stub_env (Inr []) (Inr []) (Inr ()) (Inr []), str ''de'')] init_state)) \<le> 1"
proof -
  let ?e = "stub_env (Inr []) (Inr []) (Inr ()) (Inr [])"
  let ?e2 = "stub_env (Inr []) (Inr []) (Inl (Raised (str ''gone''))) (Inr [])"
  let ?v = "\<lparr>ident = 0, model = ()\<rparr>"
  let ?s1 = "\<lparr>piper_voices = [(str ''de'', ?v)], allocated = 1,
       calls = [Load (str ''models/de_DE-thorsten-medium.onnx'') (Some 0)]\<rparr>"
  have a: "map_of (piper_voices (init_state :: unit state)) (voice_key (str ''de'')) = None"
    by (simp add: init_state_def)
  have m: "map_of PIPER_MODELS (voice_key (str ''de'')) = Some (str ''models/de_DE-thorsten-medium.onnx'')"
    by (simp only: voice_key_de model_de)
  have l: "piper_load ?e (str ''models/de_DE-thorsten-medium.onnx'') = Inr ()"
    by (simp add: stub_env_sel)
  have h: "get_piper_voice ?e (str ''de'') init_state = (Inr ?v, ?s1)"
    using get_piper_voice_loads [OF a m l]
    by (simp add: init_state_def log_def voice_key_de)
  show ?thesis
    using h C7_voice_cache_memoizes [of ?e "str ''de''" init_state ?v ?s1 ?e2
        "[(?e, str ''de''), (?e, str ''de'')]" "str ''models/de_DE-thorsten-medium.onnx''"]
    by simp
qed

text \<open>
  Claim C8. When \<open>get_piper_voice\<close> raises, the exception is the one \<open>PiperVoice.load\<close>
  raised on the configured path; the cache and the count of constructed voices are
  unchanged, the key has no entry, and the log gained the failed load. A following call
  for the same key calls \<open>PiperVoice.load\<close> on that path again, in whatever environment,
  and when the load now returns, that voice is returned and cached.
\<close>

theorem C8_failed_load_not_cached:
  assumes "get_piper_voice (e :: ('m, 'v) env) k s = (Inl x, s')"
  shows "piper_voices s' = piper_voices s \<and> allocated s' = allocated s
     \<and> map_of (piper_voices s') (voice_key k) = None
     \<and> (\<exists>p. map_of PIPER_MODELS (voice_key k) = Some p \<and> piper_load e p = Inl x
            \<and> calls s' = calls s @ [Load p None]
            \<and> (\<forall>e2 :: ('m, 'v) env. \<exists>r. calls (snd (get_piper_voice e2 k s')) = calls s' @ [Load p r])
            \<and> (\<forall>(e2 :: ('m, 'v) env) m. piper_load e2 p = Inr m \<longrightarrow>
                  fst (get_piper_voice e2 k s') = Inr \<lparr>ident = allocated s, model = m\<rparr>
                  \<and> map_of (piper_voices (snd (get_piper_voice e2 k s'))) (voice_key k) =
                      Some \<lparr>ident = allocated s, model = m\<rparr>))"
proof (cases rule: get_piper_voice_cases [of s k e])
  case (hit v)
  then show ?thesis using assms by simp
next
  case (loads p m)
  then show ?thesis using assms by simp
next
  case (fails p y)
  from fails(4) assms have xy: "y = x" and s': "s' = log (Load p None) s" by simp_all
  have a': "map_of (piper_voices s') (voice_key k) = None"
    using fails(1) by (simp add: s' log_simps)
  have retry: "\<exists>r. calls (snd (get_piper_voice e2 k s')) = calls s' @ [Load p r]" for e2 :: "('m, 'v) env"
  proof (cases "piper_load e2 p")
    case (Inl z)
    show ?thesis
      by (simp add: get_piper_voice_load_fails [OF a' fails(2) Inl] log_simps)
  next
    case (Inr m)
    show ?thesis
      by (simp add: get_piper_voice_loads [OF a' fails(2) Inr] log_simps)
  qed
  have ok: "fst (get_piper_voice e2 k s') = Inr \<lparr>ident = allocated s, model = m\<rparr>
        \<and> map_of (piper_voices (snd (get_piper_voice e2 k s'))) (voice_key k) =
            Some \<lparr>ident = allocated s, model = m\<rparr>"
    if "piper_load e2 p = Inr m" for e2 :: "('m, 'v) env" and m
    using get_piper_voice_loads [OF a' fails(2) that]
    by (simp add: log_simps update_conv' s')
  have "piper_voices s' = piper_voices s" "allocated s' = allocated s"
    "calls s' = calls s @ [Load p None]"
    by (simp_all add: s' log_simps)
  moreover have "piper_load e p = Inl x" using fails(3) xy by simp
  ultimately show ?thesis
    using a' fails(2) retry ok by blast
qed

text \<open>C8 for the key \<open>de\<close>: a load that fails, then one that succeeds.\<close>

theorem C8_failed_load_not_cached_witness:
  "get_piper_voice (stub_env (Inr []) (Inr []) (Inl (Raised (str ''missing''))) (Inr []))
       (str ''de'') init_state =
     (Inl (Raised (str ''missing'')),
      \<lparr>piper_voices = [], allocated = 0,
       calls = [Load (str ''models/de_DE-thorsten-medium.onnx'') None]\<rparr>)
   \<and> get_piper_voice (stub_env (Inr []) (Inr []) (Inr ()) (Inr [])) (str ''de'')
       \<lparr>piper_voices = [], allocated = 0,
        calls = [Load (str ''models/de_DE-thorsten-medium.onnx'') None]\<rparr> =
     (Inr \<lparr>ident = 0, model = ()\<rparr>,
      \<lparr>piper_voices = [(str ''de'', \<lparr>ident = 0, model = ()\<rparr>)], allocated = 1,
       calls = [Load (str ''models/de_DE-thorsten-medium.onnx'') None,
                Load (str ''models/de_DE-thorsten-medium.onnx'') (Some 0)]\<rparr>)"
proof -
  let ?e = "stub_env (Inr []) (Inr []) (Inl (Raised (str ''missing''))) (Inr [])"
  let ?e2 = "stub_env (Inr []) (Inr []) (Inr ()) (Inr [])"
  let ?p = "str ''models/de_DE-thorsten-medium.onnx''"
  let ?s1 = "\<lparr>piper_voices = [], allocated = 0, calls = [Load ?p None]\<rparr> :: unit state"
  have a: "map_of (piper_voices (init_state :: unit state)) (voice_key (str ''de'')) = None"
    by (simp add: init_state_def)
  have a1: "map_of (piper_voices ?s1) (voice_key (str ''de'')) = None"
    by simp
  have m: "map_of PIPER_MODELS (voice_key (str ''de'')) = Some ?p"
    by (simp only: voice_key_de model_de)
  have l: "piper_load ?e ?p = Inl (Raised (str ''missing''))"
    by (simp add: stub_env_sel)
  have l2: "piper_load ?e2 ?p = Inr ()"
    by (simp add: stub_env_sel)
  have h: "get_piper_voice ?e (str ''de'') init_state = (Inl (Raised (str ''missing'')), ?s1)"
    using get_piper_voice_load_fails [OF a m l]
    by (simp add: init_state_def log_def)
  have h2: "get_piper_voice ?e2 (str ''de'') ?s1 =
     (Inr \<lparr>ident = 0, model = ()\<rparr>,
      \<lparr>piper_voices = [(str ''de'', \<lparr>ident = 0, model = ()\<rparr>)], allocated = 1,
       calls = [Load ?p None, Load ?p (Some 0)]\<rparr>)"
    using get_piper_voice_loads [OF a1 m l2]
    by (simp add: log_def voice_key_de)
  show ?thesis
    using h h2 C8_failed_load_not_cached [OF h]
    by simp
qed

text \<open>
  Claim C9. For a key outside \<open>PIPER_MODELS\<close>, \<open>get_piper_voice\<close> behaves exactly as for
  \<open>DEFAULT_LANG\<close>, and a voice it returns is the one cached under \<open>DEFAULT_LANG\<close>. The
  key it looks up is always configured (the default key maps to the English model), so
  the subscript of \<open>PIPER_MODELS\<close> never fails: an exception leaving \<open>get_piper_voice\<close> is
  one raised by \<open>PiperVoice.load\<close> on the configured path.
\<close>

theorem C9_unconfigured_key_uses_default:
  "(map_of PIPER_MODELS k = None \<longrightarrow>
      get_piper_voice e k s = get_piper_voice e DEFAULT_LANG s
      \<and> (\<forall>v s'. get_piper_voice e k s = (Inr v, s') \<longrightarrow>
             map_of (piper_voices s') DEFAULT_LANG = Some v))
   \<and> (\<exists>p. map_of PIPER_MODELS (voice_key k) = Some p)
   \<and> map_of PIPER_MODELS DEFAULT_LANG = Some (str ''models/en_US-kristin-medium.onnx'')
   \<and> (\<forall>x s'. get_piper_voice e k s = (Inl x, s') \<longrightarrow>
         (\<exists>p. map_of PIPER_MODELS (voice_key k) = Some p \<and> piper_load e p = Inl x))"
proof -
  have dflt: "map_of PIPER_MODELS DEFAULT_LANG = Some (str ''models/en_US-kristin-medium.onnx'')"
    by (simp add: map_of_PIPER_MODELS DEFAULT_LANG_def)
  have sub: "map_of PIPER_MODELS k = None \<longrightarrow>
      get_piper_voice e k s = get_piper_voice e DEFAULT_LANG s
      \<and> (\<forall>v s'. get_piper_voice e k s = (Inr v, s') \<longrightarrow>
             map_of (piper_voices s') DEFAULT_LANG = Some v)"
  proof
    assume n: "map_of PIPER_MODELS k = None"
    have eq: "get_piper_voice e k s = get_piper_voice e DEFAULT_LANG s"
      by (simp add: get_piper_voice_def n Let_def)
    have "map_of (piper_voices s') DEFAULT_LANG = Some v"
      if "get_piper_voice e k s = (Inr v, s')" for v s'
      using get_caches [OF that] by (simp add: voice_key_unconfigured [OF n])
    with eq show "get_piper_voice e k s = get_piper_voice e DEFAULT_LANG s
      \<and> (\<forall>v s'. get_piper_voice e k s = (Inr v, s') \<longrightarrow>
             map_of (piper_voices s') DEFAULT_LANG = Some v)"
      by simp
  qed
  have err: "\<exists>p. map_of PIPER_MODELS (voice_key k) = Some p \<and> piper_load e p = Inl x"
    if g: "get_piper_voice e k s = (Inl x, s')" for x s'
  proof (cases rule: get_piper_voice_cases [of s k e])
    case (hit v)
    then show ?thesis using g by simp
  next
    case (fails p y)
    then show ?thesis using g by simp
  next
    case (loads p m)
    then show ?thesis using g by simp
  qed
  show ?thesis
    using sub voice_key_configured [of k] dflt err by simp
qed

text \<open>C9 for the key \<open>pt\<close>, which is not configured.\<close>

theorem C9_unconfigured_key_uses_default_witness:
  "map_of PIPER_MODELS (str ''pt'') = None
   \<and> get_piper_voice (stub_env (Inr []) (Inr []) (Inr ()) (Inr [])) (str ''pt'') init_state =
       get_piper_voice (stub_env (Inr []) (Inr []) (Inr ()) (Inr [])) DEFAULT_LANG init_state
   \<and> get_piper_voice (stub_env (Inr []) (Inr []) (Inr ()) (Inr [])) (str ''pt'') init_state =
       (Inr \<lparr>ident = 0, model = ()\<rparr>,
        \<lparr>piper_voices = [(str ''en'', \<lparr>ident = 0, model = ()\<rparr>)], allocated = 1,
         calls = [Load (str ''models/en_US-kristin-medium.onnx'') (Some 0)]\<rparr>)"
proof -
  let ?e = "stub_env (Inr []) (Inr []) (Inr ()) (Inr [])"
  let ?p = "str ''models/en_US-kristin-medium.onnx''"
  have n: "map_of PIPER_MODELS (str ''pt'') = None"
    by (simp add: map_of_PIPER_MODELS str_def)
  have k: "voice_key (str ''pt'') = str ''en''"
    by (simp add: voice_key_unconfigured [OF n] DEFAULT_LANG_def)
  have a: "map_of (piper_voices (init_state :: unit state)) (voice_key (str ''pt'')) = None"
    by (simp add: init_state_def)
  have m: "map_of PIPER_MODELS (voice_key (str ''pt'')) = Some ?p"
    by (simp add: k map_of_PIPER_MODELS)
  have l: "piper_load ?e ?p = Inr ()"
    by (simp add: stub_env_sel)
  have h: "get_piper_voice ?e (str ''pt'') init_state =
       (Inr \<lparr>ident = 0, model = ()\<rparr>,
        \<lparr>piper_voices = [(str ''en'', \<lparr>ident = 0, model = ()\<rparr>)], allocated = 1,
         calls = [Load ?p (Some 0)]\<rparr>)"
    using get_piper_voice_loads [OF a m l]
    by (simp add: init_state_def log_def k)
  show ?thesis
    using n h C9_unconfigured_key_uses_default [of "str ''pt''" ?e init_state]
    by simp
qed

section \<open>Synthesis and the supported path\<close>










lemma tts_with_piper_Inr:
  assumes "tts_with_piper e t k s = (Inr wav, s')"
  obtains v w' ld where "map_of (piper_voices s') (voice_key k) = Some v"
    "synthesize_wav e (model v) t \<lparr>nchannels = 1, sampwidth = 2, framerate = 22050, frames = []\<rparr>
       = Inr w'"
    "wave_close w' = Inr wav"
    "calls s' = calls s @ Tts t k # ld @ [Synthesize (ident v) t]"
    "ld = [] \<or> (\<exists>p. ld = [Load p (Some (ident v))])"
proof -
  let ?s0 = "log (Tts t k) s"
  let ?w = "\<lparr>nchannels = 1, sampwidth = 2, framerate = 22050, frames = []\<rparr>"
  obtain g s1 where g: "get_piper_voice e k ?s0 = (g, s1)"
    by (cases "get_piper_voice e k ?s0")
  from assms g obtain v where v: "g = Inr v"
    by (cases g) (simp_all add: tts_with_piper_def)
  from assms g v obtain w' where w': "synthesize_wav e (model v) t ?w = Inr w'"
    by (cases "synthesize_wav e (model v) t ?w") (simp_all add: tts_with_piper_def Let_def)
  from assms g v w' have c: "wave_close w' = Inr wav" and s': "s' = log (Synthesize (ident v) t) s1"
    by (cases "wave_close w'"; simp add: tts_with_piper_def Let_def)+
  have m: "map_of (piper_voices s') (voice_key k) = Some v"
    using get_caches [of e k ?s0 v s1] g v by (simp add: s' log_simps)
  have "\<exists>ld. calls s1 = calls ?s0 @ ld \<and> (ld = [] \<or> (\<exists>p. ld = [Load p (Some (ident v))]))"
  proof (cases rule: get_piper_voice_cases [of ?s0 k e])
    case (hit u)
    then show ?thesis using g by simp
  next
    case (fails p x)
    then show ?thesis using g v by simp
  next
    case (loads p m)
    then show ?thesis using g v by (auto simp: log_simps)
  qed
  then obtain ld where ld: "calls s1 = calls ?s0 @ ld"
    "ld = [] \<or> (\<exists>p. ld = [Load p (Some (ident v))])"
    by blast
  have cs: "calls s' = calls s @ Tts t k # ld @ [Synthesize (ident v) t]"
    by (simp add: s' ld log_simps)
  show ?thesis
    by (rule that [OF m w' c cs ld(2)])
qed







lemma detect_de: "detect_lang_for_tts ul (str ''de'') = Some (str ''de'')"
  by (simp add: detect_lang_for_tts_def str_def lower_def ascii_lower_def startswith_def)















section \<open>Faults, the side-channel header and the transcript\<close>
















end
